theory Spec2Isabelle
  imports Main
begin

section \<open>Characters and the string primitives the notebook calls\<close>

text \<open>
  The notebook \<^verbatim>\<open>udacity_NLP_testing_v1.1.ipynb\<close> cleans a movie review with
  \<^verbatim>\<open>review_to_words\<close>. Between the library calls it uses three built-in string
  operations and one regular-expression substitution:
  \<^verbatim>\<open>re.sub("[^a-zA-Z]", " ", review_text)\<close>, \<^verbatim>\<open>.lower()\<close>, \<^verbatim>\<open>.split()\<close> and
  \<^verbatim>\<open>" ".join(...)\<close>. They are modelled here on \<open>string\<close>. A \<open>char\<close> stands for a
  code point below 256. The text that \<^verbatim>\<open>get_text()\<close> returns may hold code points
  above 255; each of them is outside \<^verbatim>\<open>[a-zA-Z]\<close>, so the substitution, the first
  thing done to that text, turns it into a space exactly as it does for every other
  character outside the class.
\<close>

definition is_ascii_upper :: "char \<Rightarrow> bool" where
  "is_ascii_upper c \<longleftrightarrow> 65 \<le> (of_char c :: nat) \<and> (of_char c :: nat) \<le> 90"

definition is_ascii_lower :: "char \<Rightarrow> bool" where
  "is_ascii_lower c \<longleftrightarrow> 97 \<le> (of_char c :: nat) \<and> (of_char c :: nat) \<le> 122"

text \<open>The character class \<^verbatim>\<open>[a-zA-Z]\<close>.\<close>

definition is_ascii_letter :: "char \<Rightarrow> bool" where
  "is_ascii_letter c \<longleftrightarrow> is_ascii_lower c \<or> is_ascii_upper c"

text \<open>
  Whitespace as \<^verbatim>\<open>unicode.split()\<close> of Python 2 sees it, for code points below 256:
  TAB to CR, the separators FS, GS, RS and US, the space, NEL and the no-break space.
\<close>

definition isspace :: "char \<Rightarrow> bool" where
  "isspace c \<longleftrightarrow>
     (let n = (of_char c :: nat)
      in (9 \<le> n \<and> n \<le> 13) \<or> (28 \<le> n \<and> n \<le> 32) \<or> n = 133 \<or> n = 160)"

text \<open>
  \<^verbatim>\<open>unicode.lower()\<close> on one code point below 256: the letters A to Z and the
  upper-case letters of Latin-1 (192 to 222 without the multiplication sign 215) move up
  by 32; every other character stays.
\<close>

definition lower_char :: "char \<Rightarrow> char" where
  "lower_char c =
     (let n = (of_char c :: nat)
      in if (65 \<le> n \<and> n \<le> 90) \<or> (192 \<le> n \<and> n \<le> 222 \<and> n \<noteq> 215)
         then char_of (n + 32) else c)"

definition str_lower :: "string \<Rightarrow> string" where
  "str_lower s = map lower_char s"

text \<open>
  \<^verbatim>\<open>re.sub(pattern, repl, s)\<close> for a pattern that is one character class: the scan
  goes left to right, every character of the class is one match and is replaced by
  \<open>repl\<close>, every other character is copied.
\<close>

definition re_sub_class :: "(char \<Rightarrow> bool) \<Rightarrow> string \<Rightarrow> string \<Rightarrow> string" where
  "re_sub_class in_class repl s = concat (map (\<lambda>c. if in_class c then repl else [c]) s)"

text \<open>
  \<^verbatim>\<open>s.split()\<close> with no argument, as CPython's \<^verbatim>\<open>split_whitespace\<close> runs it: skip
  the whitespace, stop at the end of the string, otherwise cut the longest run of
  characters that are not whitespace and go on behind it.
\<close>

function str_split :: "string \<Rightarrow> string list" where
  "str_split s =
     (let r = dropWhile isspace s
      in if r = [] then []
         else takeWhile (\<lambda>c. \<not> isspace c) r # str_split (dropWhile (\<lambda>c. \<not> isspace c) r))"
  by pat_completeness auto
termination
proof (relation "measure length")
  show "wf (measure length)" by simp
next
  fix s r :: string
  assume r: "r = dropWhile isspace s" and ne: "r \<noteq> []"
  have "length (dropWhile (\<lambda>c. \<not> isspace c) r) < length r"
  proof (cases r)
    case Nil
    with ne show ?thesis by simp
  next
    case (Cons c cs)
    have "\<not> isspace (hd (dropWhile isspace s))"
      using ne r hd_dropWhile by blast
    with Cons r have "\<not> isspace c" by simp
    with Cons have "dropWhile (\<lambda>c. \<not> isspace c) r = dropWhile (\<lambda>c. \<not> isspace c) cs" by simp
    moreover have "length (dropWhile (\<lambda>c. \<not> isspace c) cs) \<le> length cs"
      by (rule length_dropWhile_le)
    ultimately show ?thesis using Cons by simp
  qed
  moreover have "length r \<le> length s"
    using r by (simp add: length_dropWhile_le)
  ultimately show "(dropWhile (\<lambda>c. \<not> isspace c) r, s) \<in> measure length"
    by simp
qed

declare str_split.simps [simp del]

text \<open>\<^verbatim>\<open>sep.join(xs)\<close>: the strings of \<open>xs\<close> with \<open>sep\<close> between neighbours.\<close>

fun str_join :: "string \<Rightarrow> string list \<Rightarrow> string" where
  "str_join sep [] = []"
| "str_join sep [x] = x"
| "str_join sep (x # y # ys) = x @ sep @ str_join sep (y # ys)"

section \<open>The cleaning function\<close>

text \<open>
  \<^verbatim>\<open>review_to_words\<close> calls three things that are not code of the notebook:
  \<^verbatim>\<open>BeautifulSoup(raw_review).get_text()\<close>, the list
  \<^verbatim>\<open>stopwords.words("english")\<close> of NLTK and \<^verbatim>\<open>stemmer.stem\<close> of NLTK's
  \<^verbatim>\<open>PorterStemmer\<close>. They are the three fields of the record below, and every
  theorem about the cleaning function holds for whatever the fields are, under the
  assumptions it names.
\<close>

record nlp_library =
  get_text :: "string \<Rightarrow> string"
  stopwords_english :: "string list"
  stem :: "string \<Rightarrow> string"

definition review_to_words :: "nlp_library \<Rightarrow> string \<Rightarrow> string" where
  "review_to_words L raw_review =
     (let review_text = get_text L raw_review;
          letters_only = re_sub_class (\<lambda>c. \<not> is_ascii_letter c) '' '' review_text;
          words = str_split (str_lower letters_only);
          stops = set (stopwords_english L);
          meaningful_words = filter (\<lambda>w. w \<notin> stops) words;
          stemmed_words = map (stem L) meaningful_words
      in str_join '' '' stemmed_words)"

text \<open>
  \<^verbatim>\<open>clean_data\<close>: the loop \<^verbatim>\<open>for i in xrange(0, num_reviews)\<close> appends the cleaned
  review number \<open>i\<close> to the list \<^verbatim>\<open>cleaned_reviews\<close>, which starts empty.
  \<^verbatim>\<open>num_reviews\<close> is the size of the data set, so every index read is in range.
\<close>

fun clean_loop :: "nlp_library \<Rightarrow> string list \<Rightarrow> nat list \<Rightarrow> string list \<Rightarrow> string list" where
  "clean_loop L dataset [] cleaned_reviews = cleaned_reviews"
| "clean_loop L dataset (i # rest) cleaned_reviews =
     clean_loop L dataset rest (cleaned_reviews @ [review_to_words L (dataset ! i)])"

definition clean_data :: "nlp_library \<Rightarrow> string list \<Rightarrow> string list" where
  "clean_data L dataset =
     (let num_reviews = length dataset
      in clean_loop L dataset [0..<num_reviews] [])"

section \<open>The cleaning steps as the specification lists them\<close>

text \<open>
  The specification describes the cleaner as a sequence of steps: strip markup, replace
  every character that is not a letter by a space, lowercase, split on whitespace, drop
  the English stop words, stem each remaining token, rejoin the tokens with single
  spaces. The definitions of this section follow those words, one definition per step,
  and are compared with \<open>review_to_words\<close> further down.
\<close>

definition strip_markup :: "nlp_library \<Rightarrow> string \<Rightarrow> string" where
  "strip_markup L raw = get_text L raw"

definition remove_non_letters :: "string \<Rightarrow> string" where
  "remove_non_letters s = map (\<lambda>c. if is_ascii_letter c then c else CHR '' '') s"

definition lowercase :: "string \<Rightarrow> string" where
  "lowercase s = map lower_char s"

text \<open>
  Splitting on whitespace, read as one pass over the characters: \<open>cur\<close> is the token
  being collected; a whitespace character closes it, if there is one.
\<close>

fun tokens_from :: "string \<Rightarrow> string \<Rightarrow> string list" where
  "tokens_from cur [] = (if cur = [] then [] else [cur])"
| "tokens_from cur (c # cs) =
     (if isspace c
      then (if cur = [] then tokens_from [] cs else cur # tokens_from [] cs)
      else tokens_from (cur @ [c]) cs)"

definition tokenize_on_whitespace :: "string \<Rightarrow> string list" where
  "tokenize_on_whitespace s = tokens_from [] s"

definition drop_stop_words :: "nlp_library \<Rightarrow> string list \<Rightarrow> string list" where
  "drop_stop_words L ws = filter (\<lambda>w. w \<notin> set (stopwords_english L)) ws"

definition stem_tokens :: "nlp_library \<Rightarrow> string list \<Rightarrow> string list" where
  "stem_tokens L ws = map (stem L) ws"

definition rejoin_with_single_spaces :: "string list \<Rightarrow> string" where
  "rejoin_with_single_spaces ws =
     (case ws of [] \<Rightarrow> [] | w # rest \<Rightarrow> w @ concat (map (\<lambda>x. CHR '' '' # x) rest))"

definition cleaning_steps :: "nlp_library \<Rightarrow> string \<Rightarrow> string" where
  "cleaning_steps L raw =
     rejoin_with_single_spaces
       (stem_tokens L
         (drop_stop_words L
           (tokenize_on_whitespace
             (lowercase
               (remove_non_letters
                 (strip_markup L raw))))))"

section \<open>Words of lowercase letters\<close>

text \<open>A token of a cleaned document: not empty, and every character one of a to z.\<close>

definition lower_word :: "string \<Rightarrow> bool" where
  "lower_word w \<longleftrightarrow> w \<noteq> [] \<and> list_all is_ascii_lower w"

section \<open>A sample binding of the library\<close>

text \<open>
  Concrete values for the three fields of \<open>nlp_library\<close>, used where a statement is
  evaluated on an input. \<open>tag_stripper\<close> drops everything from a \<^verbatim>\<open><\<close> to the next
  \<^verbatim>\<open>>\<close>; on text without markup it returns the text, as \<^verbatim>\<open>get_text()\<close> does.
  \<open>english_stop_words\<close> is the English list of NLTK's stop-word corpus.
  \<open>plural_stem\<close> is the first rule group of Porter's algorithm (step 1a, the plural
  endings), behind the length test that \<^verbatim>\<open>PorterStemmer.stem\<close> starts with; on the
  words evaluated below (others, other, dogs, dog, left, bark) the later rule groups of
  the algorithm change nothing, so there it returns what the full stemmer returns.
\<close>

fun tag_stripper :: "bool \<Rightarrow> string \<Rightarrow> string" where
  "tag_stripper in_tag [] = []"
| "tag_stripper in_tag (c # cs) =
     (if in_tag then tag_stripper (c \<noteq> CHR ''>'') cs
      else if c = CHR ''<'' then tag_stripper True cs
      else c # tag_stripper False cs)"

definition english_stop_words :: "string list" where
  "english_stop_words =
     [''i'', ''me'', ''my'', ''myself'', ''we'', ''our'', ''ours'', ''ourselves'', ''you'',
      ''your'', ''yours'', ''yourself'', ''yourselves'', ''he'', ''him'', ''his'',
      ''himself'', ''she'', ''her'', ''hers'', ''herself'', ''it'', ''its'', ''itself'',
      ''they'', ''them'', ''their'', ''theirs'', ''themselves'', ''what'', ''which'',
      ''who'', ''whom'', ''this'', ''that'', ''these'', ''those'', ''am'', ''is'', ''are'',
      ''was'', ''were'', ''be'', ''been'', ''being'', ''have'', ''has'', ''had'',
      ''having'', ''do'', ''does'', ''did'', ''doing'', ''a'', ''an'', ''the'', ''and'',
      ''but'', ''if'', ''or'', ''because'', ''as'', ''until'', ''while'', ''of'', ''at'',
      ''by'', ''for'', ''with'', ''about'', ''against'', ''between'', ''into'',
      ''through'', ''during'', ''before'', ''after'', ''above'', ''below'', ''to'',
      ''from'', ''up'', ''down'', ''in'', ''out'', ''on'', ''off'', ''over'', ''under'',
      ''again'', ''further'', ''then'', ''once'', ''here'', ''there'', ''when'', ''where'',
      ''why'', ''how'', ''all'', ''any'', ''both'', ''each'', ''few'', ''more'', ''most'',
      ''other'', ''some'', ''such'', ''no'', ''nor'', ''not'', ''only'', ''own'', ''same'',
      ''so'', ''than'', ''too'', ''very'', ''s'', ''t'', ''can'', ''will'', ''just'',
      ''don'', ''should'', ''now'', ''d'', ''ll'', ''m'', ''o'', ''re'', ''ve'', ''y'',
      ''ain'', ''aren'', ''couldn'', ''didn'', ''doesn'', ''hadn'', ''hasn'', ''haven'',
      ''isn'', ''ma'', ''mightn'', ''mustn'', ''needn'', ''shan'', ''shouldn'', ''wasn'',
      ''weren'', ''won'', ''wouldn'']"

definition endswith :: "string \<Rightarrow> string \<Rightarrow> bool" where
  "endswith w suf \<longleftrightarrow> length suf \<le> length w \<and> drop (length w - length suf) w = suf"

definition plural_stem :: "string \<Rightarrow> string" where
  "plural_stem w =
     (if length w \<le> 2 then w
      else if endswith w ''sses'' then take (length w - 2) w
      else if endswith w ''ies'' then take (length w - 2) w
      else if endswith w ''ss'' then w
      else if endswith w ''s'' then take (length w - 1) w
      else w)"

definition sample_library :: nlp_library where
  "sample_library =
     \<lparr>get_text = tag_stripper False,
      stopwords_english = english_stop_words,
      stem = plural_stem\<rparr>"

section \<open>The bag-of-words transform\<close>

text \<open>
  \<^verbatim>\<open>make_BoW_transform\<close> builds a \<^verbatim>\<open>CountVectorizer\<close> with
  \<^verbatim>\<open>analyzer = "word"\<close> and \<^verbatim>\<open>max_features = 5000\<close>, fits it to the cleaned
  training documents and returns it; the notebook then calls its \<^verbatim>\<open>transform\<close> on the
  training and on the test documents. \<^verbatim>\<open>CountVectorizer\<close> is scikit-learn's; its
  \<^verbatim>\<open>fit\<close> and \<^verbatim>\<open>transform\<close> are not among the sources, and are modelled from the
  specification. Writing the fitted transform to a file (\<^verbatim>\<open>joblib.dump\<close>) is not
  modelled.
\<close>

text \<open>
  Modelled from the spec: the state of a fitted \<^verbatim>\<open>CountVectorizer\<close>, which is not
  among the sources. The vocabulary is "an ordered set of at most N distinct tokens", the
  feature vector is "indexed by vocabulary position": a list of tokens, the position in
  the list being the position in the vector. How a document is cut into tokens is the
  library's word analyzer, a field of the record.
\<close>

record bow_transform =
  analyzer :: "string \<Rightarrow> string list"
  max_features :: nat
  vocabulary :: "string list"

definition corpus_tokens :: "(string \<Rightarrow> string list) \<Rightarrow> string list \<Rightarrow> string list" where
  "corpus_tokens word_analyzer docs = concat (map word_analyzer docs)"

text \<open>
  Modelled from the spec: the choice of the vocabulary inside \<^verbatim>\<open>CountVectorizer.fit\<close>,
  which is not among the sources: "select top-N frequent tokens", "chosen by frequency
  across the training corpus only". The distinct tokens of the corpus are put in the
  order of falling frequency and the first \<open>n\<close> are kept. Among tokens of equal
  frequency the one seen first in the corpus goes first; the specification leaves that
  open. A corpus without any token gets the empty vocabulary; the specification names no
  failure of fitting.
\<close>

definition top_frequent :: "nat \<Rightarrow> string list \<Rightarrow> string list" where
  "top_frequent n toks =
     take n (sort_key (\<lambda>t. - int (count_list toks t)) (remdups toks))"

text \<open>
  Modelled from the spec: \<^verbatim>\<open>CountVectorizer.fit\<close>, which is not among the sources:
  "fit once on training corpus to select top-N frequent tokens".
\<close>

definition fit :: "(string \<Rightarrow> string list) \<Rightarrow> nat \<Rightarrow> string list \<Rightarrow> bow_transform" where
  "fit word_analyzer n train_dataset =
     \<lparr>analyzer = word_analyzer,
      max_features = n,
      vocabulary = top_frequent n (corpus_tokens word_analyzer train_dataset)\<rparr>"

text \<open>The notebook's own function: the configuration with 5000 features, fitted.\<close>

definition make_BoW_transform :: "(string \<Rightarrow> string list) \<Rightarrow> string list \<Rightarrow> bow_transform" where
  "make_BoW_transform word_analyzer train_dataset = fit word_analyzer 5000 train_dataset"

text \<open>
  Modelled from the spec: \<^verbatim>\<open>CountVectorizer.transform\<close>, which is not among the
  sources: it "maps any cleaned document to a count vector over that fixed vocabulary
  (unseen tokens ignored)", and the vocabulary is "fixed after fitting; reused unchanged
  for transforming any future document". A call returns the transform as it is after the
  call, next to the matrix with one row for each document.
\<close>

definition count_vector :: "string list \<Rightarrow> string list \<Rightarrow> int list" where
  "count_vector vocab toks = map (\<lambda>t. int (count_list toks t)) vocab"

definition transform :: "bow_transform \<Rightarrow> string list \<Rightarrow> bow_transform \<times> int list list" where
  "transform v docs = (v, map (\<lambda>d. count_vector (vocabulary v) (analyzer v d)) docs)"

text \<open>A sequence of transform calls, each on the transform the call before it left.\<close>

fun transform_calls :: "bow_transform \<Rightarrow> string list list \<Rightarrow> bow_transform" where
  "transform_calls v [] = v"
| "transform_calls v (docs # later) = transform_calls (fst (transform v docs)) later"

section \<open>Facts about the string primitives\<close>

lemma str_split_Nil: "str_split [] = []"
  by (simp add: str_split.simps)

lemma str_split_space: "isspace c \<Longrightarrow> str_split (c # s) = str_split s"
  by (simp add: str_split.simps [of "c # s"] str_split.simps [of s])

lemma str_split_all_space: "\<forall>c\<in>set s. isspace c \<Longrightarrow> str_split s = []"
  by (subst str_split.simps) simp

lemma str_split_word_sep:
  assumes "w \<noteq> []" and "\<forall>c\<in>set w. \<not> isspace c" and "isspace d"
  shows "str_split (w @ d # s) = w # str_split s"
proof -
  from assms(1) obtain c cs where w: "w = c # cs" by (cases w) auto
  with assms(2) have c: "\<not> isspace c" by simp
  have d1: "dropWhile isspace (w @ d # s) = w @ d # s"
    using w c by simp
  have t: "takeWhile (\<lambda>c. \<not> isspace c) (w @ d # s) = w"
    using assms(2,3) by simp
  have d2: "dropWhile (\<lambda>c. \<not> isspace c) (w @ d # s) = d # s"
    using assms(2,3) by simp
  have "str_split (w @ d # s) = w # str_split (d # s)"
    using assms(1) by (subst str_split.simps) (simp add: d1 t d2 Let_def)
  then show ?thesis using assms(3) by (simp add: str_split_space)
qed

lemma str_split_word:
  assumes "w \<noteq> []" and "\<forall>c\<in>set w. \<not> isspace c"
  shows "str_split w = [w]"
proof -
  from assms(1) obtain c cs where w: "w = c # cs" by (cases w) auto
  with assms(2) have c: "\<not> isspace c" by simp
  have d1: "dropWhile isspace w = w" using w c by simp
  have t: "takeWhile (\<lambda>c. \<not> isspace c) w = w" using assms(2) by simp
  have d2: "dropWhile (\<lambda>c. \<not> isspace c) w = []" using assms(2) by simp
  show ?thesis
    using assms(1) by (subst str_split.simps) (simp add: d1 t d2 Let_def str_split_Nil)
qed

lemma isspace_space: "isspace (CHR '' '')"
  by (simp add: isspace_def)

text \<open>Splitting undoes joining with one space, for words that are not empty and hold no whitespace.\<close>

lemma str_split_join:
  "\<forall>w\<in>set ws. w \<noteq> [] \<and> (\<forall>c\<in>set w. \<not> isspace c) \<Longrightarrow> str_split (str_join '' '' ws) = ws"
proof (induction ws rule: induct_list012)
  case 1
  then show ?case by (simp add: str_split_Nil)
next
  case (2 x)
  then show ?case by (simp add: str_split_word)
next
  case (3 x y ys)
  then show ?case
    using str_split_word_sep [of x "CHR '' ''" "str_join '' '' (y # ys)"]
    by (simp add: isspace_space)
qed

text \<open>Every word that \<open>str_split\<close> returns is a run of characters of the string, none of them whitespace.\<close>

lemma str_split_words:
  "w \<in> set (str_split s) \<Longrightarrow> w \<noteq> [] \<and> set w \<subseteq> set s \<and> (\<forall>c\<in>set w. \<not> isspace c)"
proof (induction s arbitrary: w rule: str_split.induct)
  case (1 s)
  define r where "r = dropWhile isspace s"
  show ?case
  proof (cases "r = []")
    case True
    with 1(2) show ?thesis by (simp add: str_split.simps [of s] r_def)
  next
    case False
    let ?t = "takeWhile (\<lambda>c. \<not> isspace c) r"
    let ?d = "dropWhile (\<lambda>c. \<not> isspace c) r"
    from 1(2) False have mem: "w = ?t \<or> w \<in> set (str_split ?d)"
      by (simp add: str_split.simps [of s] r_def [symmetric] Let_def)
    have rs: "set r \<subseteq> set s" unfolding r_def by (auto dest: set_dropWhileD)
    have hd: "\<not> isspace (hd r)"
      using False hd_dropWhile [of isspace s] by (simp add: r_def)
    from mem show ?thesis
    proof
      assume w: "w = ?t"
      have "?t \<noteq> []" using False hd by (cases r) auto
      moreover have "set ?t \<subseteq> set r" by (auto dest: set_takeWhileD)
      moreover have "\<forall>c\<in>set ?t. \<not> isspace c" by (auto dest: set_takeWhileD)
      ultimately show ?thesis using w rs by auto
    next
      assume a: "w \<in> set (str_split ?d)"
      have "w \<noteq> [] \<and> set w \<subseteq> set ?d \<and> (\<forall>c\<in>set w. \<not> isspace c)"
        by (rule 1(1) [OF r_def False a])
      moreover have "set ?d \<subseteq> set r" by (auto dest: set_dropWhileD)
      ultimately show ?thesis using rs by auto
    qed
  qed
qed

lemma str_join_chars:
  "c \<in> set (str_join '' '' ws) \<Longrightarrow> c = CHR '' '' \<or> (\<exists>w\<in>set ws. c \<in> set w)"
  by (induction ws rule: induct_list012) auto

lemma lower_char_letter: "is_ascii_letter c \<Longrightarrow> is_ascii_lower (lower_char c)"
  by (auto simp: is_ascii_letter_def is_ascii_lower_def is_ascii_upper_def lower_char_def Let_def)

lemma lower_char_lower: "is_ascii_lower c \<Longrightarrow> lower_char c = c"
  by (auto simp: is_ascii_lower_def lower_char_def Let_def)

lemma lower_not_space: "is_ascii_lower c \<Longrightarrow> \<not> isspace c"
  by (auto simp: is_ascii_lower_def isspace_def Let_def)

lemma lower_is_letter: "is_ascii_lower c \<Longrightarrow> is_ascii_letter c"
  by (simp add: is_ascii_letter_def)

lemma lower_char_space: "lower_char (CHR '' '') = CHR '' ''"
  by (simp add: lower_char_def)

lemma letters_only_chars:
  "c \<in> set (str_lower (re_sub_class (\<lambda>c. \<not> is_ascii_letter c) '' '' t))
     \<Longrightarrow> is_ascii_lower c \<or> c = CHR '' ''"
  by (auto simp: str_lower_def re_sub_class_def lower_char_space lower_char_letter
      split: if_splits)

lemma letters_only_fixed:
  "\<forall>c\<in>set s. is_ascii_lower c \<or> c = CHR '' ''
     \<Longrightarrow> str_lower (re_sub_class (\<lambda>c. \<not> is_ascii_letter c) '' '' s) = s"
proof (induction s)
  case Nil
  then show ?case by (simp add: str_lower_def re_sub_class_def)
next
  case (Cons c s)
  then have IH: "str_lower (re_sub_class (\<lambda>c. \<not> is_ascii_letter c) '' '' s) = s" by simp
  from Cons.prems have "is_ascii_lower c \<or> c = CHR '' ''" by simp
  then have "str_lower (if \<not> is_ascii_letter c then '' '' else [c]) = [c]"
    by (auto simp: str_lower_def lower_char_space lower_char_lower lower_is_letter)
  with IH show ?case by (simp add: str_lower_def re_sub_class_def)
qed

lemma lower_word_split_ok: "lower_word w \<Longrightarrow> w \<noteq> [] \<and> (\<forall>c\<in>set w. \<not> isspace c)"
  by (simp add: lower_word_def list_all_iff lower_not_space)

lemma lower_word_take: "lower_word w \<Longrightarrow> 0 < k \<Longrightarrow> lower_word (take k w)"
  by (auto simp: lower_word_def list_all_iff dest: in_set_takeD)

lemma plural_stem_lower_word: "lower_word w \<Longrightarrow> lower_word (plural_stem w)"
  by (simp add: plural_stem_def lower_word_take)

section \<open>Facts about the cleaning function\<close>

lemma review_to_words_unfold:
  "review_to_words L raw =
     str_join '' '' (map (stem L) (filter (\<lambda>w. w \<notin> set (stopwords_english L))
       (str_split (str_lower (re_sub_class (\<lambda>c. \<not> is_ascii_letter c) '' '' (get_text L raw))))))"
  by (simp add: review_to_words_def Let_def)

lemma words_lower_word:
  assumes "w \<in> set (str_split (str_lower (re_sub_class (\<lambda>c. \<not> is_ascii_letter c) '' '' t)))"
  shows "lower_word w"
proof -
  let ?s = "str_lower (re_sub_class (\<lambda>c. \<not> is_ascii_letter c) '' '' t)"
  from str_split_words [OF assms]
  have ne: "w \<noteq> []" and sub: "set w \<subseteq> set ?s" and ns: "\<forall>c\<in>set w. \<not> isspace c"
    by auto
  have "is_ascii_lower c" if "c \<in> set w" for c
  proof -
    from that sub have "c \<in> set ?s" by auto
    then have "is_ascii_lower c \<or> c = CHR '' ''" by (rule letters_only_chars)
    moreover from that ns have "\<not> isspace c" by simp
    ultimately show ?thesis using isspace_space by auto
  qed
  with ne show ?thesis by (simp add: lower_word_def list_all_iff)
qed

lemma stemmed_words_lower:
  assumes "\<forall>w. lower_word w \<and> w \<notin> set (stopwords_english L) \<longrightarrow> lower_word (stem L w)"
  shows "\<forall>w\<in>set (map (stem L) (filter (\<lambda>w. w \<notin> set (stopwords_english L))
           (str_split (str_lower (re_sub_class (\<lambda>c. \<not> is_ascii_letter c) '' '' t))))).
         lower_word w"
  using assms words_lower_word by auto

lemma split_review_to_words:
  assumes "\<forall>w. lower_word w \<and> w \<notin> set (stopwords_english L) \<longrightarrow> lower_word (stem L w)"
  shows "str_split (review_to_words L raw) =
     map (stem L) (filter (\<lambda>w. w \<notin> set (stopwords_english L))
       (str_split (str_lower (re_sub_class (\<lambda>c. \<not> is_ascii_letter c) '' '' (get_text L raw)))))"
proof -
  have "\<forall>w\<in>set (map (stem L) (filter (\<lambda>w. w \<notin> set (stopwords_english L))
           (str_split (str_lower (re_sub_class (\<lambda>c. \<not> is_ascii_letter c) '' '' (get_text L raw)))))).
         w \<noteq> [] \<and> (\<forall>c\<in>set w. \<not> isspace c)"
    using stemmed_words_lower [OF assms] lower_word_split_ok by blast
  then show ?thesis
    unfolding review_to_words_unfold by (rule str_split_join)
qed

text \<open>
  Claim C9. When the text that markup stripping returns holds no letter (the empty
  string, or digits, punctuation and whitespace only), \<open>review_to_words\<close> returns the
  empty string: substitution leaves only spaces, \<open>str_split\<close> finds no word, and joining
  no words gives the empty string. No step of the function can fail on such a text.
\<close>

theorem review_to_words_no_letters:
  assumes "list_all (\<lambda>c. \<not> is_ascii_letter c) (get_text L raw)"
  shows "review_to_words L raw = []"
proof -
  let ?t = "get_text L raw"
  have "\<forall>c\<in>set (str_lower (re_sub_class (\<lambda>c. \<not> is_ascii_letter c) '' '' ?t)). isspace c"
    using assms
    by (auto simp: list_all_iff str_lower_def re_sub_class_def lower_char_space isspace_space)
  then have "str_split (str_lower (re_sub_class (\<lambda>c. \<not> is_ascii_letter c) '' '' ?t)) = []"
    by (rule str_split_all_space)
  then show ?thesis by (simp add: review_to_words_unfold)
qed

theorem review_to_words_no_letters_witness:
  "list_all (\<lambda>c. \<not> is_ascii_letter c) (get_text sample_library ''<br /> 12:30 ?!'')
   \<and> review_to_words sample_library ''<br /> 12:30 ?!'' = []
   \<and> review_to_words sample_library [] = []"
proof -
  have h1: "list_all (\<lambda>c. \<not> is_ascii_letter c) (get_text sample_library ''<br /> 12:30 ?!'')"
    by code_simp
  have h2: "list_all (\<lambda>c. \<not> is_ascii_letter c) (get_text sample_library [])"
    by code_simp
  show ?thesis
    using h1 review_to_words_no_letters [OF h1] review_to_words_no_letters [OF h2] by simp
qed

text \<open>
  Claim C1, as stated, fails: cleaning twice is not cleaning once. The stop words are
  dropped before stemming, so a stem that is itself a stop word survives the first pass
  and is dropped by the second. "The others left." is cleaned to "other left", and
  "other left" is cleaned to "left".
\<close>

theorem review_to_words_not_idempotent:
  "review_to_words sample_library ''The others left.'' = ''other left''
   \<and> review_to_words sample_library ''other left'' = ''left''
   \<and> review_to_words sample_library (review_to_words sample_library ''The others left.'')
       \<noteq> review_to_words sample_library ''The others left.''"
  by code_simp

text \<open>
  Claim C1, amended. Let \<open>s\<close> be an output of \<open>review_to_words\<close>. If markup stripping
  leaves \<open>s\<close> unchanged, and every token of \<open>s\<close> is neither a stop word nor changed by
  the stemmer, then cleaning \<open>s\<close> again returns \<open>s\<close>. (The stemmer is assumed to return
  a word of lowercase letters when it is given one.)
\<close>

theorem review_to_words_idempotent_when_fixed:
  assumes stem_ok: "\<forall>w. lower_word w \<and> w \<notin> set (stopwords_english L) \<longrightarrow> lower_word (stem L w)"
    and out: "s = review_to_words L raw"
    and markup: "get_text L s = s"
    and fixed: "\<forall>w\<in>set (str_split s). w \<notin> set (stopwords_english L) \<and> stem L w = w"
  shows "review_to_words L s = s"
proof -
  define ws where "ws = str_split s"
  have lw: "\<forall>w\<in>set ws. lower_word w"
    using stemmed_words_lower [OF stem_ok, of "get_text L raw"] out
    by (simp only: ws_def split_review_to_words [OF stem_ok])
  have s_join: "s = str_join '' '' ws"
    using split_review_to_words [OF stem_ok, of raw] out
    by (simp add: ws_def review_to_words_unfold [of L raw])
  have "\<forall>c\<in>set s. is_ascii_lower c \<or> c = CHR '' ''"
  proof
    fix c assume "c \<in> set s"
    then have "c = CHR '' '' \<or> (\<exists>w\<in>set ws. c \<in> set w)"
      unfolding s_join by (rule str_join_chars)
    with lw show "is_ascii_lower c \<or> c = CHR '' ''"
      by (auto simp: lower_word_def list_all_iff)
  qed
  then have "str_lower (re_sub_class (\<lambda>c. \<not> is_ascii_letter c) '' '' s) = s"
    by (rule letters_only_fixed)
  then have "review_to_words L s =
      str_join '' '' (map (stem L) (filter (\<lambda>w. w \<notin> set (stopwords_english L)) ws))"
    by (simp add: review_to_words_unfold markup ws_def)
  also have "filter (\<lambda>w. w \<notin> set (stopwords_english L)) ws = ws"
    using fixed by (simp add: ws_def)
  also have "map (stem L) ws = ws"
    using fixed by (simp add: ws_def map_idI)
  finally show ?thesis using s_join by simp
qed

theorem review_to_words_idempotent_when_fixed_witness:
  "review_to_words sample_library ''The dogs left.'' = ''dog left''
   \<and> review_to_words sample_library ''dog left'' = ''dog left''"
proof -
  have ok: "\<forall>w. lower_word w \<and> w \<notin> set (stopwords_english sample_library)
      \<longrightarrow> lower_word (stem sample_library w)"
    by (simp add: sample_library_def plural_stem_lower_word)
  have out: "''dog left'' = review_to_words sample_library ''The dogs left.''"
    by code_simp
  have markup: "get_text sample_library ''dog left'' = ''dog left''"
    by code_simp
  have toks: "str_split ''dog left'' = [''dog'', ''left'']"
    by code_simp
  have "''dog'' \<notin> set (stopwords_english sample_library) \<and> stem sample_library ''dog'' = ''dog''"
    by code_simp
  moreover have "''left'' \<notin> set (stopwords_english sample_library) \<and> stem sample_library ''left'' = ''left''"
    by code_simp
  ultimately have fixed: "\<forall>w\<in>set (str_split ''dog left'').
      w \<notin> set (stopwords_english sample_library) \<and> stem sample_library w = w"
    by (simp only: toks list.set ball_simps simp_thms)
  show ?thesis
    using review_to_words_idempotent_when_fixed [OF ok out markup fixed] out by simp
qed

section \<open>The cleaning function follows the listed steps\<close>

lemma re_sub_non_letters:
  "re_sub_class (\<lambda>c. \<not> is_ascii_letter c) '' '' s = remove_non_letters s"
  by (induction s) (simp_all add: re_sub_class_def remove_non_letters_def)

lemma str_lower_lowercase: "str_lower s = lowercase s"
  by (simp add: str_lower_def lowercase_def)

text \<open>
  The one-pass tokenizer and CPython's scan agree; the token being collected is carried
  along as a prefix of the string still to be split.
\<close>

lemma tokens_from_split:
  "\<forall>c\<in>set cur. \<not> isspace c \<Longrightarrow> tokens_from cur s = str_split (cur @ s)"
proof (induction s arbitrary: cur)
  case Nil
  then show ?case by (simp add: str_split_Nil str_split_word)
next
  case (Cons c s)
  show ?case
  proof (cases "isspace c")
    case True
    have IH: "tokens_from [] s = str_split s" using Cons.IH [of "[]"] by simp
    show ?thesis
    proof (cases "cur = []")
      case True
      with \<open>isspace c\<close> IH show ?thesis by (simp add: str_split_space)
    next
      case False
      with \<open>isspace c\<close> IH Cons.prems show ?thesis
        by (simp add: str_split_word_sep)
    qed
  next
    case False
    with Cons.prems have "\<forall>x\<in>set (cur @ [c]). \<not> isspace x" by simp
    then have "tokens_from (cur @ [c]) s = str_split ((cur @ [c]) @ s)" by (rule Cons.IH)
    with False show ?thesis by simp
  qed
qed

lemma tokenize_split: "tokenize_on_whitespace s = str_split s"
  using tokens_from_split [of "[]" s] by (simp add: tokenize_on_whitespace_def)

lemma rejoin_join: "rejoin_with_single_spaces ws = str_join '' '' ws"
  by (induction ws rule: induct_list012) (simp_all add: rejoin_with_single_spaces_def)

text \<open>
  Claim C2. For every input string, \<open>review_to_words\<close> returns what the listed steps
  return when applied in the listed order: strip markup, replace every character that is
  not a letter by a space, lowercase, split on whitespace, drop the English stop words,
  stem each remaining token, rejoin the tokens with single spaces.
\<close>

theorem review_to_words_steps: "review_to_words L raw = cleaning_steps L raw"
  by (simp add: review_to_words_unfold cleaning_steps_def strip_markup_def re_sub_non_letters
      str_lower_lowercase tokenize_split drop_stop_words_def stem_tokens_def rejoin_join)

theorem review_to_words_steps_witness:
  "review_to_words sample_library ''<b>The Dogs</b> bark at 12!<br />'' = ''dog bark''
   \<and> cleaning_steps sample_library ''<b>The Dogs</b> bark at 12!<br />'' = ''dog bark''"
proof -
  have "review_to_words sample_library ''<b>The Dogs</b> bark at 12!<br />'' = ''dog bark''"
    by code_simp
  then show ?thesis
    using review_to_words_steps [of sample_library "''<b>The Dogs</b> bark at 12!<br />''"]
    by simp
qed

section \<open>The loop over the data set\<close>

lemma clean_loop_map:
  "clean_loop L dataset idxs cleaned =
     cleaned @ map (\<lambda>i. review_to_words L (dataset ! i)) idxs"
  by (induction idxs arbitrary: cleaned) simp_all

lemma clean_data_map: "clean_data L dataset = map (review_to_words L) dataset"
proof -
  have "map (\<lambda>i. review_to_words L (dataset ! i)) [0..<length dataset]
      = map (review_to_words L) (map (\<lambda>i. dataset ! i) [0..<length dataset])"
    by simp
  also have "\<dots> = map (review_to_words L) dataset"
    by (simp only: map_nth)
  finally show ?thesis by (simp add: clean_data_def clean_loop_map)
qed

section \<open>Properties of the bag-of-words transform\<close>

lemma top_frequent_length: "length (top_frequent n toks) \<le> n"
  by (simp add: top_frequent_def)

lemma top_frequent_distinct: "distinct (top_frequent n toks)"
  by (simp add: top_frequent_def)

lemma top_frequent_subset: "set (top_frequent n toks) \<subseteq> set toks"
  by (auto simp: top_frequent_def dest: in_set_takeD)

lemma sorted_key_take_drop:
  assumes "sorted (map f xs)" and "a \<in> set (take n xs)" and "b \<in> set (drop n xs)"
  shows "f a \<le> f b"
proof -
  have "sorted (map f (take n xs) @ map f (drop n xs))"
    using assms(1) by (simp only: map_append [symmetric] append_take_drop_id)
  then have "\<forall>x\<in>set (map f (take n xs)). \<forall>y\<in>set (map f (drop n xs)). x \<le> y"
    by (simp only: sorted_append) blast
  moreover have "f a \<in> set (map f (take n xs))" using assms(2) by simp
  moreover have "f b \<in> set (map f (drop n xs))" using assms(3) by simp
  ultimately show ?thesis by blast
qed

text \<open>
  The vocabulary is chosen by frequency: a token of the corpus that is left out is no
  more frequent than any token that is kept.
\<close>

lemma top_frequent_most_frequent:
  assumes "t \<in> set (top_frequent n toks)"
    and "u \<in> set toks" and "u \<notin> set (top_frequent n toks)"
  shows "count_list toks u \<le> count_list toks t"
proof -
  let ?f = "\<lambda>t. - int (count_list toks t)"
  let ?xs = "sort_key ?f (remdups toks)"
  from assms(2) have "u \<in> set ?xs" by simp
  then have "u \<in> set (take n ?xs) \<union> set (drop n ?xs)"
    by (simp only: set_append [symmetric] append_take_drop_id)
  with assms(3) have u: "u \<in> set (drop n ?xs)"
    by (simp add: top_frequent_def)
  from assms(1) have t: "t \<in> set (take n ?xs)"
    by (simp add: top_frequent_def)
  have "?f t \<le> ?f u"
    by (rule sorted_key_take_drop [OF sorted_sort_key t u])
  then show ?thesis by simp
qed

lemma transform_calls_same: "transform_calls v calls = v"
  by (induction calls) (simp_all add: transform_def)

text \<open>
  Claim C3. The vocabulary that \<open>make_BoW_transform\<close> fits holds at most 5000 tokens,
  each of them once, for every training corpus; and both still hold after any sequence
  of transform calls.
\<close>

theorem vocabulary_bounded:
  "length (vocabulary (make_BoW_transform word_analyzer train_dataset)) \<le> 5000
   \<and> distinct (vocabulary (make_BoW_transform word_analyzer train_dataset))
   \<and> length (vocabulary (transform_calls (make_BoW_transform word_analyzer train_dataset) calls)) \<le> 5000
   \<and> distinct (vocabulary (transform_calls (make_BoW_transform word_analyzer train_dataset) calls))"
  by (simp add: transform_calls_same make_BoW_transform_def fit_def top_frequent_length
      top_frequent_distinct)

theorem vocabulary_bounded_witness:
  "vocabulary (make_BoW_transform str_split [''dog bark'', ''dog left'', ''cat left dog''])
     = [''dog'', ''left'', ''bark'', ''cat'']
   \<and> length (vocabulary (transform_calls
        (make_BoW_transform str_split [''dog bark'', ''dog left'', ''cat left dog''])
        [[''dog zebra''], [''cat'', ''emu'']])) \<le> 5000"
proof -
  have "vocabulary (make_BoW_transform str_split [''dog bark'', ''dog left'', ''cat left dog''])
      = [''dog'', ''left'', ''bark'', ''cat'']"
    by code_simp
  then show ?thesis
    using vocabulary_bounded [of str_split "[''dog bark'', ''dog left'', ''cat left dog'']"
        "[[''dog zebra''], [''cat'', ''emu'']]"]
    by simp
qed

text \<open>
  Claim C4. Transforming documents gives one feature vector for each document; every
  vector is as long as the vocabulary and none of its entries is negative.
\<close>

theorem feature_vectors_shape:
  "length (snd (transform v docs)) = length docs
   \<and> list_all (\<lambda>row. length row = length (vocabulary v) \<and> list_all (\<lambda>x. 0 \<le> x) row)
        (snd (transform v docs))"
  by (simp add: transform_def count_vector_def list_all_iff)

theorem feature_vectors_shape_witness:
  "snd (transform (fit str_split 2 [''dog bark'', ''dog left'', ''cat left dog''])
        [''dog dog zebra left'', '''']) = [[2, 1], [0, 0]]
   \<and> list_all (\<lambda>row. length row = length (vocabulary (fit str_split 2 [''dog bark'', ''dog left'', ''cat left dog'']))
                  \<and> list_all (\<lambda>x. 0 \<le> x) row)
        (snd (transform (fit str_split 2 [''dog bark'', ''dog left'', ''cat left dog''])
           [''dog dog zebra left'', '''']))"
proof -
  have "snd (transform (fit str_split 2 [''dog bark'', ''dog left'', ''cat left dog''])
        [''dog dog zebra left'', '''']) = [[2, 1], [0, 0]]"
    by code_simp
  then show ?thesis
    using feature_vectors_shape [of "fit str_split 2 [''dog bark'', ''dog left'', ''cat left dog'']"
        "[''dog dog zebra left'', '''']"]
    by simp
qed

lemma count_list_filter: "P t \<Longrightarrow> count_list (filter P toks) t = count_list toks t"
  by (induction toks) auto

lemma count_vector_known:
  "count_vector vocab (filter (\<lambda>t. t \<in> set vocab) toks) = count_vector vocab toks"
  by (simp add: count_vector_def count_list_filter)

text \<open>
  Claim C6. A transform call leaves the fitted transform, and so its vocabulary, as it
  was; and the vector of a document is the count vector of those of its tokens that are
  in the vocabulary: a token that is not in the vocabulary adds nothing to the vector and
  is not added to the vocabulary.
\<close>

theorem transform_frame:
  "fst (transform v docs) = v
   \<and> snd (transform v docs) =
       map (\<lambda>d. count_vector (vocabulary v)
                  (filter (\<lambda>t. t \<in> set (vocabulary v)) (analyzer v d))) docs"
  by (simp add: transform_def count_vector_known)

theorem transform_frame_witness:
  "vocabulary (fst (transform (fit str_split 2 [''dog bark'', ''dog left'', ''cat left dog''])
        [''zebra dog emu dog left''])) = [''dog'', ''left'']
   \<and> snd (transform (fit str_split 2 [''dog bark'', ''dog left'', ''cat left dog''])
        [''zebra dog emu dog left'']) = [count_vector [''dog'', ''left''] [''dog'', ''dog'', ''left'']]"
proof -
  let ?v = "fit str_split 2 [''dog bark'', ''dog left'', ''cat left dog'']"
  have voc: "vocabulary ?v = [''dog'', ''left'']"
    by code_simp
  have toks: "filter (\<lambda>t. t \<in> set [''dog'', ''left'']) (analyzer ?v ''zebra dog emu dog left'')
      = [''dog'', ''dog'', ''left'']"
    by code_simp
  show ?thesis
    using transform_frame [of ?v "[''zebra dog emu dog left'']"] voc toks by simp
qed

end
